theory Spec2Isabelle
  imports Main
begin

section \<open>The linker abstraction layer of mesonbuild/linkers.py\<close>

text \<open>
  A shallow embedding of the dynamic-linker classes of \<^verbatim>\<open>mesonbuild/linkers.py\<close>.
  A Python \<^verbatim>\<open>str\<close> is a \<^typ>\<open>string\<close>, one \<^typ>\<open>char\<close> per code point (code points
  below 256), so that \<^verbatim>\<open>len\<close> is \<^const>\<open>length\<close>. A method that raises returns
  \<open>Inl\<close> of the exception, a method that returns gives \<open>Inr\<close> of its value.
\<close>

subsection \<open>Data model\<close>

datatype error =
    EnvironmentException string
  | MesonException string
  | ValueError string

text \<open>\<^verbatim>\<open>prefix_arg\<close> is \<^verbatim>\<open>typing.Union[str, typing.List[str]]\<close>.\<close>

datatype prefix_arg = PrefixStr string | PrefixList "string list"

datatype MachineChoice = BUILD | HOST

text \<open>The concrete classes deriving from \<^verbatim>\<open>DynamicLinker\<close>.\<close>

datatype linker_class =
    GnuDynamicLinker
  | LLVMDynamicLinker
  | XildLinuxDynamicLinker
  | AppleDynamicLinker
  | XildAppleDynamicLinker
  | CcrxDynamicLinker
  | ArmDynamicLinker
  | ArmClangDynamicLinker
  | PGIDynamicLinker
  | MSVCDynamicLinker
  | ClangClDynamicLinker
  | XilinkDynamicLinker
  | SolarisDynamicLinker
  | OptlinkDynamicLinker
  | CudaLinker

text \<open>The attributes set by \<^verbatim>\<open>DynamicLinker.__init__\<close>, and the class of the instance.\<close>

record dynamic_linker =
  cls :: linker_class
  exelist :: "string list"
  for_machine :: MachineChoice
  version :: string
  linker_id :: string
  prefix_arg :: prefix_arg

text \<open>
  What the methods ask of \<^verbatim>\<open>env.machines[self.for_machine]\<close> (the target machine) and
  of \<^verbatim>\<open>mesonlib\<close> (the machine meson runs on).
\<close>

record machine_info =
  is_windows :: bool
  is_cygwin :: bool
  is_haiku :: bool

record environment =
  machines :: "MachineChoice \<Rightarrow> machine_info"

record host_platform =
  is_dragonflybsd :: bool
  is_openbsd :: bool
  is_sunos :: bool

subsection \<open>The argument prefix\<close>

definition apply_prefix :: "dynamic_linker \<Rightarrow> string \<Rightarrow> string list" where
  "apply_prefix l arg =
     (case prefix_arg l of
        PrefixStr s \<Rightarrow> [s @ arg]
      | PrefixList xs \<Rightarrow> xs @ [arg])"

subsection \<open>Position-independent executables\<close>

definition DynamicLinker_get_pie_args :: "dynamic_linker \<Rightarrow> error + string list" where
  "DynamicLinker_get_pie_args l =
     Inl (EnvironmentException
       (''Linker '' @ linker_id l @ '' does not support position-independent executable''))"

definition GnuLike_get_pie_args :: "dynamic_linker \<Rightarrow> error + string list" where
  "GnuLike_get_pie_args l = Inr [''-pie'']"

definition Apple_get_pie_args :: "dynamic_linker \<Rightarrow> error + string list" where
  "Apple_get_pie_args l = Inr [''-pie'']"

text \<open>
  Whether a class has its own \<^verbatim>\<open>get_pie_args\<close> in its method resolution order, before
  the one of \<^verbatim>\<open>DynamicLinker\<close>: the classes built on \<^verbatim>\<open>GnuLikeDynamicLinkerMixin\<close>
  and on \<^verbatim>\<open>AppleDynamicLinker\<close> do, no other class does.
\<close>

fun supplies_pie :: "linker_class \<Rightarrow> bool" where
  "supplies_pie GnuDynamicLinker = True"
| "supplies_pie LLVMDynamicLinker = True"
| "supplies_pie XildLinuxDynamicLinker = True"
| "supplies_pie AppleDynamicLinker = True"
| "supplies_pie XildAppleDynamicLinker = True"
| "supplies_pie _ = False"

text \<open>The call \<^verbatim>\<open>linker.get_pie_args()\<close>, resolved along the classes' bases.\<close>

fun get_pie_args :: "dynamic_linker \<Rightarrow> error + string list" where
  "get_pie_args l =
     (case cls l of
        GnuDynamicLinker \<Rightarrow> GnuLike_get_pie_args l
      | LLVMDynamicLinker \<Rightarrow> GnuLike_get_pie_args l
      | XildLinuxDynamicLinker \<Rightarrow> GnuLike_get_pie_args l
      | AppleDynamicLinker \<Rightarrow> Apple_get_pie_args l
      | XildAppleDynamicLinker \<Rightarrow> Apple_get_pie_args l
      | CcrxDynamicLinker \<Rightarrow> DynamicLinker_get_pie_args l
      | ArmDynamicLinker \<Rightarrow> DynamicLinker_get_pie_args l
      | ArmClangDynamicLinker \<Rightarrow> DynamicLinker_get_pie_args l
      | PGIDynamicLinker \<Rightarrow> DynamicLinker_get_pie_args l
      | MSVCDynamicLinker \<Rightarrow> DynamicLinker_get_pie_args l
      | ClangClDynamicLinker \<Rightarrow> DynamicLinker_get_pie_args l
      | XilinkDynamicLinker \<Rightarrow> DynamicLinker_get_pie_args l
      | SolarisDynamicLinker \<Rightarrow> DynamicLinker_get_pie_args l
      | OptlinkDynamicLinker \<Rightarrow> DynamicLinker_get_pie_args l
      | CudaLinker \<Rightarrow> DynamicLinker_get_pie_args l)"

subsection \<open>Sanitizers\<close>

definition GnuLike_sanitizer_args :: "dynamic_linker \<Rightarrow> string \<Rightarrow> string list" where
  "GnuLike_sanitizer_args l v = (if v = ''none'' then [] else [''-fsanitize='' @ v])"

definition Apple_sanitizer_args :: "dynamic_linker \<Rightarrow> string \<Rightarrow> string list" where
  "Apple_sanitizer_args l v = (if v = ''none'' then [] else [''-fsanitize='' @ v])"

subsection \<open>Whole archives\<close>

definition GnuLike_get_link_whole_for :: "dynamic_linker \<Rightarrow> string list \<Rightarrow> string list" where
  "GnuLike_get_link_whole_for l args =
     (if args = [] then args
      else apply_prefix l ''--whole-archive'' @ args @ apply_prefix l ''--no-whole-archive'')"

text \<open>The loop of \<^verbatim>\<open>AppleDynamicLinker.get_link_whole_for\<close>, \<open>result\<close> its accumulator.\<close>

fun force_load_loop :: "dynamic_linker \<Rightarrow> string list \<Rightarrow> string list \<Rightarrow> string list" where
  "force_load_loop l result [] = result"
| "force_load_loop l result (a # args) =
     force_load_loop l ((result @ apply_prefix l ''-force_load'') @ [a]) args"

definition Apple_get_link_whole_for :: "dynamic_linker \<Rightarrow> string list \<Rightarrow> string list" where
  "Apple_get_link_whole_for l args = force_load_loop l [] args"

subsection \<open>SONAME\<close>

text \<open>
  \<^verbatim>\<open>GnuLikeDynamicLinkerMixin.get_soname_args\<close>; \<open>soversion\<close> is a string or \<^verbatim>\<open>None\<close>.
  The format string is \<^verbatim>\<open>'-soname,{}{}.{}{}'\<close>.
\<close>

definition GnuLike_get_soname_args ::
  "dynamic_linker \<Rightarrow> environment \<Rightarrow> string \<Rightarrow> string \<Rightarrow> string \<Rightarrow> string option \<Rightarrow>
   (string \<times> string) option \<Rightarrow> bool \<Rightarrow> string list" where
  "GnuLike_get_soname_args l env pre shlib_name suffix soversion darwin_versions is_shared_module =
     (let m = machines env (for_machine l) in
      if is_windows m \<or> is_cygwin m then []
      else
        let sostr = (case soversion of None \<Rightarrow> '''' | Some v \<Rightarrow> ''.'' @ v)
        in apply_prefix l (''-soname,'' @ pre @ shlib_name @ ''.'' @ suffix @ sostr))"

subsection \<open>Python's strings and POSIX paths\<close>

text \<open>
  The functions of Python's \<^verbatim>\<open>str\<close> and \<^verbatim>\<open>posixpath\<close> (\<^verbatim>\<open>os.path\<close> on the platforms that
  have an RPATH) that the linkers call, after the standard library's source.
  \<^verbatim>\<open>os.getcwd()\<close>, which \<^verbatim>\<open>abspath\<close> reads, is the parameter \<open>cwd\<close>.
\<close>

definition startswith_sep :: "string \<Rightarrow> bool" where
  "startswith_sep s = (case s of [] \<Rightarrow> False | c # _ \<Rightarrow> c = CHR ''/'')"

definition endswith_sep :: "string \<Rightarrow> bool" where
  "endswith_sep s = (case rev s of [] \<Rightarrow> False | c # _ \<Rightarrow> c = CHR ''/'')"

definition posix_isabs :: "string \<Rightarrow> bool" where
  "posix_isabs s = startswith_sep s"

text \<open>One round of the loop of \<^verbatim>\<open>posixpath.join(a, *p)\<close>, and the loop.\<close>

definition join_step :: "string \<Rightarrow> string \<Rightarrow> string" where
  "join_step path b =
     (if startswith_sep b then b
      else if path = [] \<or> endswith_sep path then path @ b
      else path @ ''/'' @ b)"

definition posix_join :: "string \<Rightarrow> string list \<Rightarrow> string" where
  "posix_join a p = foldl join_step a p"

text \<open>\<^verbatim>\<open>s.split(sep)\<close> for a separator of one character, and \<^verbatim>\<open>sep.join(xs)\<close>.\<close>

fun str_split :: "char \<Rightarrow> string \<Rightarrow> string list" where
  "str_split sep [] = [[]]"
| "str_split sep (c # cs) =
     (if c = sep then [] # str_split sep cs
      else (case str_split sep cs of
              [] \<Rightarrow> [[c]]
            | w # ws \<Rightarrow> (c # w) # ws))"

fun str_join :: "string \<Rightarrow> string list \<Rightarrow> string" where
  "str_join sep [] = []"
| "str_join sep [x] = x"
| "str_join sep (x # y # ys) = x @ sep @ str_join sep (y # ys)"

text \<open>
  \<^verbatim>\<open>posixpath.normpath\<close>: \<open>initial_slashes\<close> is 0, 1 or 2, and one round of its loop over
  the components appends the component, pops the last one or leaves the list as it is.
\<close>

definition normpath_step :: "nat \<Rightarrow> string list \<Rightarrow> string \<Rightarrow> string list" where
  "normpath_step initial_slashes new_comps component =
     (if component = [] \<or> component = ''.'' then new_comps
      else if component \<noteq> ''..'' \<or> (initial_slashes = 0 \<and> new_comps = []) \<or>
              (new_comps \<noteq> [] \<and> last new_comps = ''..'')
        then new_comps @ [component]
      else if new_comps \<noteq> [] then butlast new_comps
      else new_comps)"

definition posix_normpath :: "string \<Rightarrow> string" where
  "posix_normpath path =
     (if path = [] then ''.''
      else
        let initial_slashes =
              (if startswith_sep path
               then (if take 2 path = ''//'' \<and> take 3 path \<noteq> ''///'' then 2 else 1)
               else 0);
            comps = foldl (normpath_step initial_slashes) [] (str_split CHR ''/'' path);
            joined = replicate initial_slashes CHR ''/'' @ str_join ''/'' comps
        in if joined = [] then ''.'' else joined)"

definition posix_abspath :: "string \<Rightarrow> string \<Rightarrow> string" where
  "posix_abspath cwd path =
     posix_normpath (if \<not> posix_isabs path then posix_join cwd [path] else path)"

text \<open>
  \<^verbatim>\<open>posixpath.commonprefix\<close> of two lists: the standard library compares the smaller of
  the two lists with the larger one, element by element, and returns what they share at
  the front, which is the longest common prefix of the two.
\<close>

fun commonprefix :: "'a list \<Rightarrow> 'a list \<Rightarrow> 'a list" where
  "commonprefix (x # xs) (y # ys) = (if x = y then x # commonprefix xs ys else [])"
| "commonprefix _ _ = []"

definition posix_relpath :: "string \<Rightarrow> string \<Rightarrow> string \<Rightarrow> error + string" where
  "posix_relpath cwd path start =
     (if path = [] then Inl (ValueError ''no path specified'')
      else
        let start_list = filter (\<lambda>x. x \<noteq> []) (str_split CHR ''/'' (posix_abspath cwd start));
            path_list = filter (\<lambda>x. x \<noteq> []) (str_split CHR ''/'' (posix_abspath cwd path));
            i = length (commonprefix start_list path_list);
            rel_list = replicate (length start_list - i) ''..'' @ drop i path_list
        in (case rel_list of
              [] \<Rightarrow> Inr ''.''
            | a # p \<Rightarrow> Inr (posix_join a p)))"

text \<open>
  \<^verbatim>\<open>str.strip()\<close> removes the white space at both ends; these are the white-space
  characters of Python below code point 256.
\<close>

definition py_isspace :: "char \<Rightarrow> bool" where
  "py_isspace c =
     (let n = of_char c :: nat
      in (9 \<le> n \<and> n \<le> 13) \<or> (28 \<le> n \<and> n \<le> 32) \<or> n = 133 \<or> n = 160)"

definition str_strip :: "string \<Rightarrow> string" where
  "str_strip s = rev (dropWhile py_isspace (rev (dropWhile py_isspace s)))"

subsection \<open>The insertion-ordered set\<close>

text \<open>
  Modelled from the spec: \<^verbatim>\<open>mesonlib.OrderedSet.add\<close> and the iteration of the set;
  the class \<^verbatim>\<open>OrderedSet\<close> of \<^verbatim>\<open>mesonlib\<close> is not among the sources. The
  spec asks to "deduplicate while preserving first-seen order (insertion-ordered set
  semantics)": the set is the list of its members in the order of their first insertion,
  adding a member that is there already changes nothing, and iterating the set (as
  \<^verbatim>\<open>':'.join\<close> and \<^verbatim>\<open>for rp in all_paths\<close> do) goes through that list.
\<close>

definition OrderedSet_add :: "'a list \<Rightarrow> 'a \<Rightarrow> 'a list" where
  "OrderedSet_add s v = (if v \<in> set s then s else s @ [v])"

text \<open>
  Modelled from the spec: the constructor \<^verbatim>\<open>mesonlib.OrderedSet(iterable)\<close>, which is
  not among the sources; it adds the members of the iterable one after the other, so
  that the first occurrence of each decides its place.
\<close>

definition OrderedSet :: "'a list \<Rightarrow> 'a list" where
  "OrderedSet iterable = foldl OrderedSet_add [] iterable"

subsection \<open>The RPATH engine\<close>

definition evaluate_rpath :: "string \<Rightarrow> string \<Rightarrow> string \<Rightarrow> string \<Rightarrow> error + string" where
  "evaluate_rpath cwd p build_dir from_dir =
     (if p = from_dir then Inr ''''
      else if posix_isabs p then Inr p
      else posix_relpath cwd (posix_join build_dir [p]) (posix_join build_dir [from_dir]))"

text \<open>
  \<^verbatim>\<open>sorted(xs, key=f)\<close> is a stable sort by the key; \<^const>\<open>sort_key\<close> is the stable
  insertion sort, and \<open>False < True\<close> as in Python.
\<close>

definition order_rpaths :: "string list \<Rightarrow> string list" where
  "order_rpaths rpath_list = sort_key posix_isabs rpath_list"

text \<open>
  A list comprehension whose element expression may raise: the first exception ends it.
\<close>

fun comprehension :: "('a \<Rightarrow> error + 'b) \<Rightarrow> 'a list \<Rightarrow> error + 'b list" where
  "comprehension f [] = Inr []"
| "comprehension f (x # xs) =
     (case f x of
        Inl e \<Rightarrow> Inl e
      | Inr v \<Rightarrow> (case comprehension f xs of Inl e \<Rightarrow> Inl e | Inr vs \<Rightarrow> Inr (v # vs)))"

text \<open>
  \<open>raw_rpaths\<close> is annotated \<^verbatim>\<open>str\<close> in the source and is iterated as a sequence of
  path strings.
\<close>

definition prepare_rpaths ::
  "string \<Rightarrow> string list \<Rightarrow> string \<Rightarrow> string \<Rightarrow> error + string list" where
  "prepare_rpaths cwd raw_rpaths build_dir from_dir =
     (case comprehension (\<lambda>p. evaluate_rpath cwd p build_dir from_dir) raw_rpaths of
        Inl e \<Rightarrow> Inl e
      | Inr internal_format_rpaths \<Rightarrow> Inr (order_rpaths internal_format_rpaths))"

text \<open>
  The part that the three \<^verbatim>\<open>build_rpath_args\<close> share: the set of the processed paths
  joined to the origin placeholder, and \<open>build_rpath\<close> added to it when it is not empty.
\<close>

definition rpath_all_paths :: "string \<Rightarrow> string list \<Rightarrow> string \<Rightarrow> string list" where
  "rpath_all_paths origin_placeholder processed_rpaths build_rpath =
     (let all_paths = OrderedSet (map (\<lambda>p. posix_join origin_placeholder [p]) processed_rpaths)
      in if build_rpath \<noteq> '''' then OrderedSet_add all_paths build_rpath else all_paths)"

text \<open>The padding that \<^verbatim>\<open>GnuLikeDynamicLinkerMixin\<close> and \<^verbatim>\<open>SolarisDynamicLinker\<close> share.\<close>

definition rpath_padded :: "string list \<Rightarrow> string \<Rightarrow> string" where
  "rpath_padded all_paths install_rpath =
     (let paths = str_join '':'' all_paths
      in if length paths < length install_rpath
         then (let padding = replicate (length install_rpath - length paths) CHR ''X''
               in if paths = [] then padding else paths @ '':'' @ padding)
         else paths)"

definition GnuLike_build_rpath_args ::
  "host_platform \<Rightarrow> string \<Rightarrow> dynamic_linker \<Rightarrow> environment \<Rightarrow> string \<Rightarrow> string \<Rightarrow>
   string list \<Rightarrow> string \<Rightarrow> string \<Rightarrow> error + string list" where
  "GnuLike_build_rpath_args host cwd l env build_dir from_dir rpath_paths build_rpath install_rpath =
     (let m = machines env (for_machine l) in
      if is_windows m \<or> is_cygwin m then Inr []
      else if rpath_paths = [] \<and> install_rpath = [] \<and> build_rpath = [] then Inr []
      else
        (case prepare_rpaths cwd rpath_paths build_dir from_dir of
           Inl e \<Rightarrow> Inl e
         | Inr processed_rpaths \<Rightarrow>
            let all_paths = rpath_all_paths ''$ORIGIN'' processed_rpaths build_rpath;
                args0 = (if is_dragonflybsd host \<or> is_openbsd host
                         then apply_prefix l ''-z,origin'' else []);
                paths = rpath_padded all_paths install_rpath;
                args = args0 @ apply_prefix l (''-rpath,'' @ paths)
            in if is_sunos host then Inr args
               else Inr (args @ concat (map (\<lambda>p. apply_prefix l
                           (''-rpath-link,'' @ posix_join build_dir [p])) rpath_paths))))"

definition Apple_build_rpath_args ::
  "string \<Rightarrow> dynamic_linker \<Rightarrow> environment \<Rightarrow> string \<Rightarrow> string \<Rightarrow>
   string list \<Rightarrow> string \<Rightarrow> string \<Rightarrow> error + string list" where
  "Apple_build_rpath_args cwd l env build_dir from_dir rpath_paths build_rpath install_rpath =
     (if rpath_paths = [] \<and> install_rpath = [] \<and> build_rpath = [] then Inr []
      else
        (case prepare_rpaths cwd rpath_paths build_dir from_dir of
           Inl e \<Rightarrow> Inl e
         | Inr processed_rpaths \<Rightarrow>
            let args = apply_prefix l ''-headerpad_max_install_names'';
                all_paths = rpath_all_paths ''@loader_path'' processed_rpaths build_rpath
            in Inr (args @ concat (map (\<lambda>rp. apply_prefix l (''-rpath,'' @ rp)) all_paths))))"

definition Solaris_build_rpath_args ::
  "string \<Rightarrow> dynamic_linker \<Rightarrow> environment \<Rightarrow> string \<Rightarrow> string \<Rightarrow>
   string list \<Rightarrow> string \<Rightarrow> string \<Rightarrow> error + string list" where
  "Solaris_build_rpath_args cwd l env build_dir from_dir rpath_paths build_rpath install_rpath =
     (if rpath_paths = [] \<and> install_rpath = [] \<and> build_rpath = [] then Inr []
      else
        (case prepare_rpaths cwd rpath_paths build_dir from_dir of
           Inl e \<Rightarrow> Inl e
         | Inr processed_rpaths \<Rightarrow>
            let all_paths = rpath_all_paths ''$ORIGIN'' processed_rpaths build_rpath;
                paths = rpath_padded all_paths install_rpath
            in Inr (apply_prefix l (''-rpath,'' @ paths))))"

subsection \<open>The CUDA linker's version\<close>

text \<open>
  What \<^verbatim>\<open>mesonlib.Popen_safe(['nvlink', '--version'])\<close> does is the parameter of
  \<open>parse_version\<close>: it raises \<^verbatim>\<open>OSError\<close>, or returns the process and what it wrote.
\<close>

datatype popen_result = Popen_OSError | Popen_output string

definition parse_version :: "popen_result \<Rightarrow> string" where
  "parse_version probe =
     (case probe of
        Popen_OSError \<Rightarrow> ''unknown version''
      | Popen_output out \<Rightarrow> last (str_split CHR ''V'' (str_strip out)))"

subsection \<open>Example instances\<close>

text \<open>
  A GNU ld driven through the compiler (\<^verbatim>\<open>-Wl,\<close>), an Apple ld driven through a
  compiler that takes the linker argument as a token of its own, a Solaris ld run directly
  and an MSVC link.exe.
\<close>

definition gnu_ld :: dynamic_linker where
  "gnu_ld = \<lparr>cls = GnuDynamicLinker, exelist = [''ld.bfd''], for_machine = HOST,
     version = ''2.34'', linker_id = ''ld.bfd'', prefix_arg = PrefixStr ''-Wl,''\<rparr>"

definition apple_ld :: dynamic_linker where
  "apple_ld = \<lparr>cls = AppleDynamicLinker, exelist = [''ld''], for_machine = HOST,
     version = ''530'', linker_id = ''ld64'', prefix_arg = PrefixList [''-Xlinker'']\<rparr>"

definition solaris_ld :: dynamic_linker where
  "solaris_ld = \<lparr>cls = SolarisDynamicLinker, exelist = [''ld''], for_machine = HOST,
     version = ''unknown version'', linker_id = ''ld.solaris'', prefix_arg = PrefixStr []\<rparr>"

definition msvc_link :: dynamic_linker where
  "msvc_link = \<lparr>cls = MSVCDynamicLinker, exelist = [''link.exe''], for_machine = HOST,
     version = ''unknown version'', linker_id = ''link'', prefix_arg = PrefixStr []\<rparr>"

definition linux_machine :: machine_info where
  "linux_machine = \<lparr>is_windows = False, is_cygwin = False, is_haiku = False\<rparr>"

definition linux_env :: environment where
  "linux_env = \<lparr>machines = (\<lambda>_. linux_machine)\<rparr>"

definition linux_host :: host_platform where
  "linux_host = \<lparr>is_dragonflybsd = False, is_openbsd = False, is_sunos = False\<rparr>"

section \<open>Properties\<close>

lemma force_load_loop_concat:
  "force_load_loop l result args =
     result @ concat (map (\<lambda>a. apply_prefix l ''-force_load'' @ [a]) args)"
  by (induction args arbitrary: result) simp_all

text \<open>
  C10. On the GNU-like and the Apple dynamic linkers, \<^verbatim>\<open>sanitizer_args\<close> returns the
  empty list for the value \<^verbatim>\<open>'none'\<close> and exactly \<^verbatim>\<open>['-fsanitize=' + v]\<close> for every
  other value \<open>v\<close>.
\<close>

theorem sanitizer_args_none_or_flag:
  "GnuLike_sanitizer_args l ''none'' = [] \<and>
   Apple_sanitizer_args l ''none'' = [] \<and>
   (v \<noteq> ''none'' \<longrightarrow>
      GnuLike_sanitizer_args l v = [''-fsanitize='' @ v] \<and>
      Apple_sanitizer_args l v = [''-fsanitize='' @ v])"
  by (simp add: GnuLike_sanitizer_args_def Apple_sanitizer_args_def)

theorem sanitizer_args_none_or_flag_witness:
  "''address'' \<noteq> ''none'' \<and>
   GnuLike_sanitizer_args gnu_ld ''address'' = [''-fsanitize=address''] \<and>
   Apple_sanitizer_args apple_ld ''address'' = [''-fsanitize=address'']"
  using sanitizer_args_none_or_flag [of gnu_ld "''address''"]
    sanitizer_args_none_or_flag [of apple_ld "''address''"] by simp

text \<open>
  C7. \<^verbatim>\<open>get_link_whole_for\<close> of a GNU-like linker wraps a non-empty list once, between
  the prefixed \<^verbatim>\<open>--whole-archive\<close> and \<^verbatim>\<open>--no-whole-archive\<close>; that of the Apple linker
  puts a prefixed \<^verbatim>\<open>-force_load\<close> before each member; both return the empty list for
  the empty list.
\<close>

theorem get_link_whole_for_wrapping:
  "(args \<noteq> [] \<longrightarrow>
      GnuLike_get_link_whole_for l args =
        apply_prefix l ''--whole-archive'' @ args @ apply_prefix l ''--no-whole-archive'') \<and>
   Apple_get_link_whole_for l args =
     concat (map (\<lambda>a. apply_prefix l ''-force_load'' @ [a]) args) \<and>
   GnuLike_get_link_whole_for l [] = [] \<and>
   Apple_get_link_whole_for l [] = []"
  by (simp add: GnuLike_get_link_whole_for_def Apple_get_link_whole_for_def
      force_load_loop_concat)

theorem get_link_whole_for_wrapping_witness:
  "[''a.a'', ''b.a''] \<noteq> [] \<and>
   GnuLike_get_link_whole_for gnu_ld [''a.a'', ''b.a''] =
     [''-Wl,--whole-archive'', ''a.a'', ''b.a'', ''-Wl,--no-whole-archive''] \<and>
   Apple_get_link_whole_for apple_ld [''a.a'', ''b.a''] =
     [''-Xlinker'', ''-force_load'', ''a.a'', ''-Xlinker'', ''-force_load'', ''b.a'']"
  using get_link_whole_for_wrapping [of "[''a.a'', ''b.a'']" gnu_ld]
    get_link_whole_for_wrapping [of "[''a.a'', ''b.a'']" apple_ld]
  by (simp add: apply_prefix_def gnu_ld_def apple_ld_def)

text \<open>
  C6. On a GNU-like linker whose target machine is neither Windows nor Cygwin,
  \<^verbatim>\<open>get_soname_args\<close> with prefix \<^verbatim>\<open>lib\<close>, name \<^verbatim>\<open>foo\<close>, suffix \<^verbatim>\<open>so\<close> and soversion
  \<^verbatim>\<open>1\<close> is the one prefixed directive \<^verbatim>\<open>-soname,libfoo.so.1\<close>, and with soversion
  \<^verbatim>\<open>None\<close> it is \<^verbatim>\<open>-soname,libfoo.so\<close>, with no version segment.
\<close>

theorem get_soname_args_libfoo:
  assumes "\<not> is_windows (machines env (for_machine l))"
    and "\<not> is_cygwin (machines env (for_machine l))"
  shows "GnuLike_get_soname_args l env ''lib'' ''foo'' ''so'' (Some ''1'') dv shm =
           apply_prefix l ''-soname,libfoo.so.1'' \<and>
         GnuLike_get_soname_args l env ''lib'' ''foo'' ''so'' None dv shm =
           apply_prefix l ''-soname,libfoo.so''"
  using assms by (simp add: GnuLike_get_soname_args_def)

theorem get_soname_args_libfoo_witness:
  "\<not> is_windows (machines linux_env (for_machine gnu_ld)) \<and>
   \<not> is_cygwin (machines linux_env (for_machine gnu_ld)) \<and>
   GnuLike_get_soname_args gnu_ld linux_env ''lib'' ''foo'' ''so'' (Some ''1'') None False =
     [''-Wl,-soname,libfoo.so.1''] \<and>
   GnuLike_get_soname_args gnu_ld linux_env ''lib'' ''foo'' ''so'' None None False =
     [''-Wl,-soname,libfoo.so'']"
proof -
  have w: "\<not> is_windows (machines linux_env (for_machine gnu_ld))"
    by (simp add: linux_env_def linux_machine_def)
  have c: "\<not> is_cygwin (machines linux_env (for_machine gnu_ld))"
    by (simp add: linux_env_def linux_machine_def)
  show ?thesis
    using w c get_soname_args_libfoo [OF w c, of None False]
    by (simp add: apply_prefix_def gnu_ld_def)
qed

text \<open>
  C8. \<^verbatim>\<open>get_pie_args\<close> of a linker whose class has no \<^verbatim>\<open>get_pie_args\<close> of its own
  raises \<^verbatim>\<open>EnvironmentException\<close> with a message that names the linker id and the
  capability; it returns no argument list, so the outcome differs from the empty list
  and from every other returned list.
\<close>

theorem get_pie_args_unsupported:
  assumes "\<not> supplies_pie (cls l)"
  shows "get_pie_args l =
           Inl (EnvironmentException
             (''Linker '' @ linker_id l @ '' does not support position-independent executable'')) \<and>
         get_pie_args l \<noteq> Inr [] \<and>
         get_pie_args l \<noteq> Inr args"
  using assms by (cases "cls l") (simp_all add: DynamicLinker_get_pie_args_def)

theorem get_pie_args_unsupported_witness:
  "\<not> supplies_pie (cls msvc_link) \<and>
   get_pie_args msvc_link =
     Inl (EnvironmentException ''Linker link does not support position-independent executable'') \<and>
   get_pie_args msvc_link \<noteq> Inr []"
proof -
  have h: "\<not> supplies_pie (cls msvc_link)" by (simp add: msvc_link_def)
  show ?thesis
    using h get_pie_args_unsupported [OF h, of "[]"] by (simp add: msvc_link_def)
qed

subsection \<open>Strings, paths and the stable sort\<close>

lemma str_split_not_Nil: "str_split sep s \<noteq> []"
  by (induction s) (auto split: list.splits)

lemma str_split_no_sep: "sep \<notin> set s \<Longrightarrow> str_split sep s = [s]"
  by (induction s) auto

lemma str_split_pieces: "w \<in> set (str_split sep s) \<Longrightarrow> sep \<notin> set w"
  by (induction s arbitrary: w) (auto split: if_splits list.splits)

lemma str_split_two: "sep \<in> set s \<Longrightarrow> \<exists>w v vs. str_split sep s = w # v # vs"
proof (induction s)
  case Nil
  then show ?case by simp
next
  case (Cons c cs)
  obtain w ws where ws: "str_split sep cs = w # ws"
    using str_split_not_Nil [of sep cs] by (cases "str_split sep cs") auto
  show ?case
  proof (cases "c = sep")
    case True
    then show ?thesis using ws by simp
  next
    case False
    then have "sep \<in> set cs" using Cons.prems by simp
    then show ?thesis using Cons.IH False by auto
  qed
qed

lemma last_str_split_suffix:
  "sep \<in> set s \<Longrightarrow> \<exists>pre. s = pre @ sep # last (str_split sep s)"
proof (induction s)
  case Nil
  then show ?case by simp
next
  case (Cons c cs)
  show ?case
  proof (cases "sep \<in> set cs")
    case True
    then obtain pre where pre: "cs = pre @ sep # last (str_split sep cs)"
      using Cons.IH by blast
    obtain w v vs where sp: "str_split sep cs = w # v # vs"
      using str_split_two [OF True] by blast
    have "last (str_split sep (c # cs)) = last (str_split sep cs)"
      using sp by simp
    then have "c # cs = (c # pre) @ sep # last (str_split sep (c # cs))"
      using pre by simp
    then show ?thesis by blast
  next
    case False
    then have c: "c = sep" using Cons.prems by simp
    have "str_split sep cs = [cs]" using False by (rule str_split_no_sep)
    then have "c # cs = [] @ sep # last (str_split sep (c # cs))"
      using c by simp
    then show ?thesis by blast
  qed
qed

lemma insort_key_bool_False:
  "\<not> f x \<Longrightarrow> insort_key f x ys = x # ys"
  by (cases ys) auto

lemma insort_key_bool_True:
  "f x \<Longrightarrow> insort_key f x (filter (\<lambda>y. \<not> f y) xs @ filter f ys) =
     filter (\<lambda>y. \<not> f y) xs @ x # filter f ys"
  by (induction xs) (auto simp: insort_is_Cons)

lemma sort_key_bool_partition:
  fixes f :: "'a \<Rightarrow> bool"
  shows "sort_key f xs = filter (\<lambda>y. \<not> f y) xs @ filter f xs"
proof (induction xs)
  case Nil
  then show ?case by simp
next
  case (Cons x xs)
  show ?case
  proof (cases "f x")
    case True
    then show ?thesis using Cons insort_key_bool_True [of f x xs xs] by simp
  next
    case False
    then show ?thesis using Cons by (simp add: insort_key_bool_False)
  qed
qed

lemma join_step_not_abs:
  "a \<noteq> [] \<Longrightarrow> \<not> startswith_sep a \<Longrightarrow> \<not> startswith_sep b \<Longrightarrow>
     join_step a b \<noteq> [] \<and> \<not> startswith_sep (join_step a b)"
  by (cases a) (auto simp: join_step_def startswith_sep_def)

lemma posix_join_not_abs:
  "a \<noteq> [] \<Longrightarrow> \<not> startswith_sep a \<Longrightarrow> \<forall>b \<in> set p. \<not> startswith_sep b \<Longrightarrow>
     \<not> startswith_sep (posix_join a p)"
  unfolding posix_join_def
proof (induction p arbitrary: a)
  case Nil
  then show ?case by simp
next
  case (Cons b p)
  have "join_step a b \<noteq> [] \<and> \<not> startswith_sep (join_step a b)"
    using Cons.prems by (intro join_step_not_abs) auto
  then show ?case using Cons.IH [of "join_step a b"] Cons.prems by simp
qed

lemma no_sep_not_abs: "CHR ''/'' \<notin> set w \<Longrightarrow> \<not> startswith_sep w"
  by (cases w) (auto simp: startswith_sep_def)

lemma posix_relpath_not_abs:
  assumes "posix_relpath cwd path start = Inr r"
  shows "\<not> posix_isabs r"
proof -
  define start_list where
    "start_list = filter (\<lambda>x. x \<noteq> []) (str_split CHR ''/'' (posix_abspath cwd start))"
  define path_list where
    "path_list = filter (\<lambda>x. x \<noteq> []) (str_split CHR ''/'' (posix_abspath cwd path))"
  define i where "i = length (commonprefix start_list path_list)"
  define rel_list where
    "rel_list = replicate (length start_list - i) ''..'' @ drop i path_list"
  have ok: "w \<noteq> [] \<and> \<not> startswith_sep w" if "w \<in> set rel_list" for w
  proof -
    from that consider "w = ''..''" | "w \<in> set path_list"
      unfolding rel_list_def by (auto dest: in_set_dropD)
    then show ?thesis
    proof cases
      case 1
      then show ?thesis by (simp add: startswith_sep_def)
    next
      case 2
      then have "w \<noteq> []" and "w \<in> set (str_split CHR ''/'' (posix_abspath cwd path))"
        unfolding path_list_def by auto
      then show ?thesis
        using str_split_pieces [of w "CHR ''/''"] no_sep_not_abs [of w] by blast
    qed
  qed
  have r: "r = (case rel_list of [] \<Rightarrow> ''.'' | a # p \<Rightarrow> posix_join a p)"
    using assms
    unfolding posix_relpath_def Let_def start_list_def [symmetric] path_list_def [symmetric]
      i_def [symmetric] rel_list_def [symmetric]
    by (auto split: if_splits list.splits)
  show ?thesis
  proof (cases rel_list)
    case Nil
    then show ?thesis using r by (simp add: posix_isabs_def startswith_sep_def)
  next
    case (Cons a p)
    then have "\<not> startswith_sep (posix_join a p)"
      using ok by (intro posix_join_not_abs) auto
    then show ?thesis using r Cons by (simp add: posix_isabs_def)
  qed
qed

lemma posix_relpath_returns: "path \<noteq> [] \<Longrightarrow> \<exists>r. posix_relpath cwd path start = Inr r"
  by (auto simp: posix_relpath_def Let_def split: list.splits)

lemma posix_join_one_not_Nil: "a \<noteq> [] \<or> b \<noteq> [] \<Longrightarrow> posix_join a [b] \<noteq> []"
  by (cases b) (auto simp: posix_join_def join_step_def startswith_sep_def)

lemma evaluate_rpath_relative:
  assumes "evaluate_rpath cwd p build_dir from_dir = Inr r" and "\<not> posix_isabs p"
  shows "\<not> posix_isabs r"
  using assms
  by (auto simp: evaluate_rpath_def posix_isabs_def startswith_sep_def
      dest: posix_relpath_not_abs [unfolded posix_isabs_def startswith_sep_def] split: if_splits)

lemma comprehension_list_all2:
  "comprehension f xs = Inr ys \<Longrightarrow> list_all2 (\<lambda>x y. f x = Inr y) xs ys"
  by (induction xs arbitrary: ys) (auto split: sum.splits)


subsection \<open>The insertion-ordered set\<close>

lemma OrderedSet_fold_set: "set (foldl OrderedSet_add acc xs) = set acc \<union> set xs"
  by (induction xs arbitrary: acc) (auto simp: OrderedSet_add_def)

lemma OrderedSet_fold_distinct: "distinct acc \<Longrightarrow> distinct (foldl OrderedSet_add acc xs)"
  by (induction xs arbitrary: acc) (auto simp: OrderedSet_add_def)


lemma set_OrderedSet: "set (OrderedSet xs) = set xs"
  by (simp add: OrderedSet_def OrderedSet_fold_set)

lemma distinct_OrderedSet: "distinct (OrderedSet xs)"
  by (simp add: OrderedSet_def OrderedSet_fold_distinct)




lemma OrderedSet_snoc: "OrderedSet (xs @ [v]) = OrderedSet_add (OrderedSet xs) v"
  by (simp add: OrderedSet_def)

lemma count_list_distinct: "distinct xs \<Longrightarrow> x \<in> set xs \<Longrightarrow> count_list xs x = 1"
  by (induction xs) (auto simp: count_list_0_iff)

lemma rpath_all_paths_OrderedSet:
  "rpath_all_paths origin processed build_rpath =
     OrderedSet (map (\<lambda>p. posix_join origin [p]) processed @
                 (if build_rpath \<noteq> [] then [build_rpath] else []))"
  by (simp add: rpath_all_paths_def OrderedSet_snoc)

subsection \<open>What the RPATH builders return\<close>


lemma str_join_not_Nil:
  assumes "xs \<noteq> []" and "\<forall>x \<in> set xs. x \<noteq> []"
  shows "str_join sep xs \<noteq> []"
proof (cases xs)
  case Nil
  then show ?thesis using assms by simp
next
  case (Cons x ys)
  then show ?thesis using assms by (cases ys) auto
qed

lemma rpath_all_paths_members:
  assumes "origin \<noteq> []" and "x \<in> set (rpath_all_paths origin processed build_rpath)"
  shows "x \<noteq> []"
proof -
  from assms(2) consider p where "x = posix_join origin [p]" | "x = build_rpath" "build_rpath \<noteq> []"
    by (auto simp: rpath_all_paths_OrderedSet set_OrderedSet split: if_splits)
  then show ?thesis
  proof cases
    case 1
    then show ?thesis using posix_join_one_not_Nil [of origin p] assms(1) by simp
  next
    case 2
    then show ?thesis by simp
  qed
qed

lemma rpath_all_paths_Nil:
  "rpath_all_paths origin processed build_rpath = [] \<longleftrightarrow> processed = [] \<and> build_rpath = []"
  using set_OrderedSet [of "map (\<lambda>p. posix_join origin [p]) processed @
          (if build_rpath \<noteq> [] then [build_rpath] else [])"]
  by (auto simp: rpath_all_paths_OrderedSet simp del: set_append)

lemma Solaris_build_rpath_args_eq:
  assumes "prepare_rpaths cwd rpath_paths build_dir from_dir = Inr processed"
    and "rpath_paths \<noteq> [] \<or> install_rpath \<noteq> [] \<or> build_rpath \<noteq> []"
  shows "Solaris_build_rpath_args cwd l env build_dir from_dir rpath_paths build_rpath
           install_rpath =
         Inr (apply_prefix l (''-rpath,'' @
           rpath_padded (rpath_all_paths ''$ORIGIN'' processed build_rpath) install_rpath))"
  using assms by (auto simp: Solaris_build_rpath_args_def)

lemma GnuLike_build_rpath_args_eq:
  assumes "prepare_rpaths cwd rpath_paths build_dir from_dir = Inr processed"
    and "rpath_paths \<noteq> [] \<or> install_rpath \<noteq> [] \<or> build_rpath \<noteq> []"
    and "\<not> is_windows (machines env (for_machine l))"
    and "\<not> is_cygwin (machines env (for_machine l))"
  shows "GnuLike_build_rpath_args host cwd l env build_dir from_dir rpath_paths build_rpath
           install_rpath =
         Inr ((if is_dragonflybsd host \<or> is_openbsd host then apply_prefix l ''-z,origin''
               else []) @
              apply_prefix l (''-rpath,'' @
                rpath_padded (rpath_all_paths ''$ORIGIN'' processed build_rpath) install_rpath) @
              (if is_sunos host then []
               else concat (map (\<lambda>p. apply_prefix l
                      (''-rpath-link,'' @ posix_join build_dir [p])) rpath_paths)))"
  using assms by (auto simp: GnuLike_build_rpath_args_def Let_def)

lemma Apple_build_rpath_args_eq:
  assumes "prepare_rpaths cwd rpath_paths build_dir from_dir = Inr processed"
    and "rpath_paths \<noteq> [] \<or> install_rpath \<noteq> [] \<or> build_rpath \<noteq> []"
  shows "Apple_build_rpath_args cwd l env build_dir from_dir rpath_paths build_rpath
           install_rpath =
         Inr (apply_prefix l ''-headerpad_max_install_names'' @
              concat (map (\<lambda>rp. apply_prefix l (''-rpath,'' @ rp))
                (rpath_all_paths ''@loader_path'' processed build_rpath)))"
  using assms by (auto simp: Apple_build_rpath_args_def Let_def)

section \<open>The RPATH engine and the version probe\<close>

text \<open>
  C3 (as amended). \<^verbatim>\<open>evaluate_rpath\<close> returns an absolute entry \<open>p\<close> unchanged, whatever
  \<open>build_dir\<close> and the working directory are, for every \<open>from_dir\<close> other than \<open>p\<close>
  itself. The comparison with \<open>from_dir\<close> comes first in the function, so an absolute
  entry equal to \<open>from_dir\<close> resolves to the empty string.
\<close>

theorem evaluate_rpath_absolute:
  assumes "posix_isabs p" and "p \<noteq> from_dir"
  shows "evaluate_rpath cwd p build_dir from_dir = Inr p \<and>
         evaluate_rpath cwd from_dir build_dir from_dir = Inr []"
  using assms by (simp add: evaluate_rpath_def)

theorem evaluate_rpath_absolute_witness:
  "posix_isabs ''/usr/lib'' \<and> ''/usr/lib'' \<noteq> ''src'' \<and>
   evaluate_rpath ''/home/u'' ''/usr/lib'' ''/build'' ''src'' = Inr ''/usr/lib''"
proof -
  have a: "posix_isabs ''/usr/lib''" by (simp add: posix_isabs_def startswith_sep_def)
  have n: "''/usr/lib'' \<noteq> ''src''" by simp
  show ?thesis
    using a n evaluate_rpath_absolute [OF a n, of "''/home/u''" "''/build''"] by simp
qed

theorem evaluate_rpath_absolute_counterexample:
  "posix_isabs ''/usr/lib'' \<and>
   evaluate_rpath ''/home/u'' ''/usr/lib'' ''/build'' ''/usr/lib'' = Inr '''' \<and>
   evaluate_rpath ''/home/u'' ''/usr/lib'' ''/build'' ''/usr/lib'' \<noteq> Inr ''/usr/lib''"
  by (simp add: evaluate_rpath_def posix_isabs_def startswith_sep_def)

text \<open>
  C2. When \<^verbatim>\<open>prepare_rpaths\<close> returns, its result is the stable partition of the resolved
  entries: those that are relative, in their original order, and then those that are
  absolute, in their original order. For the raw entries \<^verbatim>\<open>/abs/path\<close> and
  \<^verbatim>\<open>relative/path\<close>, and every \<open>from_dir\<close> other than \<^verbatim>\<open>/abs/path\<close>, it returns the
  resolved \<^verbatim>\<open>relative/path\<close>, which is relative, and then \<^verbatim>\<open>/abs/path\<close>.
\<close>

theorem prepare_rpaths_stable_partition:
  "(prepare_rpaths cwd raw_rpaths build_dir from_dir = Inr ordered \<longrightarrow>
     (\<exists>resolved.
        list_all2 (\<lambda>p r. evaluate_rpath cwd p build_dir from_dir = Inr r) raw_rpaths resolved \<and>
        ordered = filter (\<lambda>r. \<not> posix_isabs r) resolved @ filter posix_isabs resolved)) \<and>
   (from_dir \<noteq> ''/abs/path'' \<longrightarrow>
     (\<exists>r. evaluate_rpath cwd ''relative/path'' build_dir from_dir = Inr r \<and>
          \<not> posix_isabs r \<and>
          prepare_rpaths cwd [''/abs/path'', ''relative/path''] build_dir from_dir =
            Inr [r, ''/abs/path'']))"
proof (intro conjI impI)
  assume a: "prepare_rpaths cwd raw_rpaths build_dir from_dir = Inr ordered"
  then obtain resolved where
    c: "comprehension (\<lambda>p. evaluate_rpath cwd p build_dir from_dir) raw_rpaths = Inr resolved"
    and o: "ordered = order_rpaths resolved"
    by (auto simp: prepare_rpaths_def split: sum.splits)
  show "\<exists>resolved.
        list_all2 (\<lambda>p r. evaluate_rpath cwd p build_dir from_dir = Inr r) raw_rpaths resolved \<and>
        ordered = filter (\<lambda>r. \<not> posix_isabs r) resolved @ filter posix_isabs resolved"
    using comprehension_list_all2 [OF c] o
    by (intro exI [of _ resolved]) (simp add: order_rpaths_def sort_key_bool_partition)
next
  assume f: "from_dir \<noteq> ''/abs/path''"
  have abs: "evaluate_rpath cwd ''/abs/path'' build_dir from_dir = Inr ''/abs/path''"
    using f by (simp add: evaluate_rpath_def posix_isabs_def startswith_sep_def)
  have rel: "\<not> posix_isabs ''relative/path''"
    by (simp add: posix_isabs_def startswith_sep_def)
  have "\<exists>r. evaluate_rpath cwd ''relative/path'' build_dir from_dir = Inr r"
    using posix_relpath_returns [of "posix_join build_dir [''relative/path'']"]
      posix_join_one_not_Nil [of build_dir "''relative/path''"]
    by (simp add: evaluate_rpath_def)
  then obtain r where r: "evaluate_rpath cwd ''relative/path'' build_dir from_dir = Inr r"
    by blast
  have nr: "\<not> posix_isabs r" using r rel by (rule evaluate_rpath_relative)
  have "posix_isabs ''/abs/path''" by (simp add: posix_isabs_def startswith_sep_def)
  then have "prepare_rpaths cwd [''/abs/path'', ''relative/path''] build_dir from_dir =
            Inr [r, ''/abs/path'']"
    using abs r nr by (simp add: prepare_rpaths_def order_rpaths_def)
  then show "\<exists>r. evaluate_rpath cwd ''relative/path'' build_dir from_dir = Inr r \<and>
          \<not> posix_isabs r \<and>
          prepare_rpaths cwd [''/abs/path'', ''relative/path''] build_dir from_dir =
            Inr [r, ''/abs/path'']"
    using r nr by blast
qed

theorem prepare_rpaths_stable_partition_witness:
  "prepare_rpaths ''/'' [''/abs/path'', ''relative/path'', ''/x'', ''sub'', ''a/b''] ''/build''
     ''sub'' = Inr [''../relative/path'', '''', ''../a/b'', ''/abs/path'', ''/x''] \<and>
   (\<exists>resolved.
      list_all2 (\<lambda>p r. evaluate_rpath ''/'' p ''/build'' ''sub'' = Inr r)
        [''/abs/path'', ''relative/path'', ''/x'', ''sub'', ''a/b''] resolved \<and>
      [''../relative/path'', '''', ''../a/b'', ''/abs/path'', ''/x''] =
        filter (\<lambda>r. \<not> posix_isabs r) resolved @ filter posix_isabs resolved) \<and>
   '''' \<noteq> ''/abs/path'' \<and>
   prepare_rpaths ''/'' [''/abs/path'', ''relative/path''] ''/build'' '''' =
     Inr [''relative/path'', ''/abs/path'']"
proof -
  have a: "prepare_rpaths ''/'' [''/abs/path'', ''relative/path'', ''/x'', ''sub'', ''a/b'']
      ''/build'' ''sub'' = Inr [''../relative/path'', '''', ''../a/b'', ''/abs/path'', ''/x'']"
    by code_simp
  have b: "prepare_rpaths ''/'' [''/abs/path'', ''relative/path''] ''/build'' '''' =
      Inr [''relative/path'', ''/abs/path'']"
    by code_simp
  show ?thesis
    using a b
      prepare_rpaths_stable_partition [of "''/''"
        "[''/abs/path'', ''relative/path'', ''/x'', ''sub'', ''a/b'']" "''/build''" "''sub''"
        "[''../relative/path'', '''', ''../a/b'', ''/abs/path'', ''/x'']"]
    by simp
qed

text \<open>
  C1. Let \<open>P\<close> be the \<^verbatim>\<open>':'\<close>-joined set of paths of the GNU-like or the Solaris
  \<^verbatim>\<open>build_rpath_args\<close>, and \<open>install_rpath\<close> be longer than \<open>P\<close>. When the set is not
  empty, the embedded value is \<open>P\<close>, a \<^verbatim>\<open>':'\<close> and \<^verbatim>\<open>len(install_rpath) - len(P)\<close>
  characters \<^verbatim>\<open>'X'\<close>: its total length is \<^verbatim>\<open>len(install_rpath) + 1\<close>, one more than
  the length of \<open>install_rpath\<close>, since the separator is not counted in the padding. When
  the set is empty the value is \<^verbatim>\<open>len(install_rpath)\<close> characters \<^verbatim>\<open>'X'\<close>.
\<close>

theorem build_rpath_args_padding:
  assumes prep: "prepare_rpaths cwd rpath_paths build_dir from_dir = Inr processed"
    and ap: "all_paths = rpath_all_paths ''$ORIGIN'' processed build_rpath"
    and P: "P = str_join '':'' all_paths"
    and len: "length P < length install_rpath"
    and V: "V = (if all_paths = [] then replicate (length install_rpath) CHR ''X''
                 else P @ '':'' @ replicate (length install_rpath - length P) CHR ''X'')"
  shows "Solaris_build_rpath_args cwd l env build_dir from_dir rpath_paths build_rpath
           install_rpath = Inr (apply_prefix l (''-rpath,'' @ V)) \<and>
         (\<not> is_windows (machines env (for_machine l)) \<and>
          \<not> is_cygwin (machines env (for_machine l)) \<longrightarrow>
            GnuLike_build_rpath_args host cwd l env build_dir from_dir rpath_paths build_rpath
              install_rpath =
            Inr ((if is_dragonflybsd host \<or> is_openbsd host then apply_prefix l ''-z,origin''
                  else []) @
                 apply_prefix l (''-rpath,'' @ V) @
                 (if is_sunos host then []
                  else concat (map (\<lambda>p. apply_prefix l
                         (''-rpath-link,'' @ posix_join build_dir [p])) rpath_paths)))) \<and>
         length V = (if all_paths = [] then length install_rpath else length install_rpath + 1)"
proof -
  have ne: "rpath_paths \<noteq> [] \<or> install_rpath \<noteq> [] \<or> build_rpath \<noteq> []"
    using len by auto
  have PN: "P = [] \<longleftrightarrow> all_paths = []"
  proof
    assume "P = []"
    then show "all_paths = []"
      using str_join_not_Nil [of all_paths "'':''"]
        rpath_all_paths_members [of "''$ORIGIN''" _ processed build_rpath]
      unfolding P ap by auto
  next
    assume "all_paths = []"
    then show "P = []" unfolding P by simp
  qed
  have pad: "rpath_padded all_paths install_rpath = V"
    using len PN unfolding V P by (simp add: rpath_padded_def Let_def)
  have lenV: "length V = (if all_paths = [] then length install_rpath else length install_rpath + 1)"
    using len unfolding V by simp
  show ?thesis
    using Solaris_build_rpath_args_eq [OF prep ne, of l env]
      GnuLike_build_rpath_args_eq [OF prep ne, of env l host] pad lenV
    unfolding ap by simp
qed

theorem build_rpath_args_padding_witness:
  "prepare_rpaths ''/'' [''lib''] ''/b'' '''' = Inr [''lib''] \<and>
   length (str_join '':'' (rpath_all_paths ''$ORIGIN'' [''lib''] '''')) < length ''/usr/local/lib'' \<and>
   \<not> is_windows (machines linux_env (for_machine gnu_ld)) \<and>
   \<not> is_cygwin (machines linux_env (for_machine gnu_ld)) \<and>
   Solaris_build_rpath_args ''/'' solaris_ld linux_env ''/b'' '''' [''lib''] ''''
     ''/usr/local/lib'' = Inr [''-rpath,$ORIGIN/lib:XXX''] \<and>
   GnuLike_build_rpath_args linux_host ''/'' gnu_ld linux_env ''/b'' '''' [''lib''] ''''
     ''/usr/local/lib'' = Inr [''-Wl,-rpath,$ORIGIN/lib:XXX'', ''-Wl,-rpath-link,/b/lib''] \<and>
   length ''$ORIGIN/lib:XXX'' = length ''/usr/local/lib'' + 1"
proof -
  have prep: "prepare_rpaths ''/'' [''lib''] ''/b'' '''' = Inr [''lib'']"
    by code_simp
  have ap: "[''$ORIGIN/lib''] = rpath_all_paths ''$ORIGIN'' [''lib''] ''''"
    by code_simp
  have P: "''$ORIGIN/lib'' = str_join '':'' [''$ORIGIN/lib'']"
    by simp
  have len: "length ''$ORIGIN/lib'' < length ''/usr/local/lib''"
    by simp
  have V: "''$ORIGIN/lib:XXX'' =
      (if [''$ORIGIN/lib''] = [] then replicate (length ''/usr/local/lib'') CHR ''X''
       else ''$ORIGIN/lib'' @ '':'' @
         replicate (length ''/usr/local/lib'' - length ''$ORIGIN/lib'') CHR ''X'')"
    by code_simp
  have m: "\<not> is_windows (machines linux_env (for_machine gnu_ld)) \<and>
      \<not> is_cygwin (machines linux_env (for_machine gnu_ld))"
    by (simp add: linux_env_def linux_machine_def)
  have s: "apply_prefix solaris_ld ''-rpath,$ORIGIN/lib:XXX'' = [''-rpath,$ORIGIN/lib:XXX'']"
    by (simp add: apply_prefix_def solaris_ld_def)
  have g: "apply_prefix gnu_ld ''-rpath,$ORIGIN/lib:XXX'' = [''-Wl,-rpath,$ORIGIN/lib:XXX'']"
    by (simp add: apply_prefix_def gnu_ld_def)
  have k: "concat (map (\<lambda>p. apply_prefix gnu_ld (''-rpath-link,'' @ posix_join ''/b'' [p]))
      [''lib'']) = [''-Wl,-rpath-link,/b/lib'']"
    by code_simp
  have h: "\<not> is_dragonflybsd linux_host \<and> \<not> is_openbsd linux_host \<and> \<not> is_sunos linux_host"
    by (simp add: linux_host_def)
  show ?thesis
    using prep ap [symmetric] len m s g k h
      build_rpath_args_padding [OF prep ap P len V, of solaris_ld linux_env linux_host]
      build_rpath_args_padding [OF prep ap P len V, of gnu_ld linux_env linux_host]
    by simp
qed

text \<open>
  The same at one input: the embedded value \<^verbatim>\<open>$ORIGIN/lib:XXX\<close> has 15 characters, the
  install RPATH \<^verbatim>\<open>/usr/local/lib\<close> has 14.
\<close>

theorem build_rpath_args_padding_failing_input:
  "Solaris_build_rpath_args ''/'' solaris_ld linux_env ''/b'' '''' [''lib''] ''''
     ''/usr/local/lib'' = Inr [''-rpath,'' @ ''$ORIGIN/lib:XXX''] \<and>
   GnuLike_build_rpath_args linux_host ''/'' gnu_ld linux_env ''/b'' '''' [''lib''] ''''
     ''/usr/local/lib'' =
     Inr [''-Wl,'' @ ''-rpath,'' @ ''$ORIGIN/lib:XXX'', ''-Wl,-rpath-link,/b/lib''] \<and>
   length ''$ORIGIN/lib:XXX'' \<noteq> length ''/usr/local/lib''"
proof -
  have s: "Solaris_build_rpath_args ''/'' solaris_ld linux_env ''/b'' '''' [''lib''] ''''
     ''/usr/local/lib'' = Inr [''-rpath,$ORIGIN/lib:XXX'']"
    by code_simp
  have g: "GnuLike_build_rpath_args linux_host ''/'' gnu_ld linux_env ''/b'' '''' [''lib''] ''''
     ''/usr/local/lib'' = Inr [''-Wl,-rpath,$ORIGIN/lib:XXX'', ''-Wl,-rpath-link,/b/lib'']"
    by code_simp
  show ?thesis using s g by simp
qed



text \<open>
  C5 (as amended). A non-empty \<open>build_rpath\<close> is added, as it is and with no origin
  placeholder joined to it, to the insertion-ordered set of the processed paths joined
  to the placeholder. When it differs from all of them it becomes the last path of the
  set; when it equals one of them the set stays as it is, and the path keeps the position
  it had. In both cases the set holds it exactly once.
\<close>

theorem build_rpath_args_build_rpath:
  assumes prep: "prepare_rpaths cwd rpath_paths build_dir from_dir = Inr processed"
    and nonempty: "build_rpath \<noteq> []"
    and pf: "prefixed = map (\<lambda>p. posix_join origin [p]) processed"
    and ap: "all_paths = rpath_all_paths origin processed build_rpath"
  shows "all_paths = (if build_rpath \<in> set prefixed then OrderedSet prefixed
                      else OrderedSet prefixed @ [build_rpath]) \<and>
         count_list all_paths build_rpath = 1 \<and>
         (origin = ''@loader_path'' \<longrightarrow>
            Apple_build_rpath_args cwd l env build_dir from_dir rpath_paths build_rpath
              install_rpath =
            Inr (apply_prefix l ''-headerpad_max_install_names'' @
                 concat (map (\<lambda>rp. apply_prefix l (''-rpath,'' @ rp)) all_paths))) \<and>
         (origin = ''$ORIGIN'' \<longrightarrow>
            Solaris_build_rpath_args cwd l env build_dir from_dir rpath_paths build_rpath
              install_rpath =
            Inr (apply_prefix l (''-rpath,'' @ rpath_padded all_paths install_rpath))) \<and>
         (origin = ''$ORIGIN'' \<and> \<not> is_windows (machines env (for_machine l)) \<and>
          \<not> is_cygwin (machines env (for_machine l)) \<longrightarrow>
            GnuLike_build_rpath_args host cwd l env build_dir from_dir rpath_paths build_rpath
              install_rpath =
            Inr ((if is_dragonflybsd host \<or> is_openbsd host then apply_prefix l ''-z,origin''
                  else []) @
                 apply_prefix l (''-rpath,'' @ rpath_padded all_paths install_rpath) @
                 (if is_sunos host then []
                  else concat (map (\<lambda>p. apply_prefix l
                         (''-rpath-link,'' @ posix_join build_dir [p])) rpath_paths))))"
proof -
  have ne: "rpath_paths \<noteq> [] \<or> install_rpath \<noteq> [] \<or> build_rpath \<noteq> []"
    using nonempty by simp
  have a: "all_paths = OrderedSet_add (OrderedSet prefixed) build_rpath"
    unfolding ap pf using nonempty by (simp add: rpath_all_paths_def)
  have e: "all_paths = (if build_rpath \<in> set prefixed then OrderedSet prefixed
                      else OrderedSet prefixed @ [build_rpath])"
    unfolding a by (simp add: OrderedSet_add_def set_OrderedSet)
  have "distinct all_paths"
    unfolding ap rpath_all_paths_OrderedSet by (rule distinct_OrderedSet)
  moreover have "build_rpath \<in> set all_paths"
    unfolding e by (simp add: set_OrderedSet)
  ultimately have c: "count_list all_paths build_rpath = 1" by (rule count_list_distinct)
  show ?thesis
    using e c Apple_build_rpath_args_eq [OF prep ne, of l env]
      Solaris_build_rpath_args_eq [OF prep ne, of l env]
      GnuLike_build_rpath_args_eq [OF prep ne, of env l host]
    unfolding ap by auto
qed

theorem build_rpath_args_build_rpath_witness:
  "prepare_rpaths ''/'' [''lib''] ''/b'' '''' = Inr [''lib''] \<and>
   ''/b/q'' \<noteq> '''' \<and>
   \<not> is_windows (machines linux_env (for_machine gnu_ld)) \<and>
   \<not> is_cygwin (machines linux_env (for_machine gnu_ld)) \<and>
   rpath_all_paths ''$ORIGIN'' [''lib''] ''/b/q'' = [''$ORIGIN/lib'', ''/b/q''] \<and>
   GnuLike_build_rpath_args linux_host ''/'' gnu_ld linux_env ''/b'' '''' [''lib''] ''/b/q'' '''' =
     Inr [''-Wl,-rpath,$ORIGIN/lib:/b/q'', ''-Wl,-rpath-link,/b/lib'']"
proof -
  have prep: "prepare_rpaths ''/'' [''lib''] ''/b'' '''' = Inr [''lib'']"
    by code_simp
  have nonempty: "''/b/q'' \<noteq> ''''"
    by simp
  have pf: "[''$ORIGIN/lib''] = map (\<lambda>p. posix_join ''$ORIGIN'' [p]) [''lib'']"
    by code_simp
  have ap: "[''$ORIGIN/lib'', ''/b/q''] = rpath_all_paths ''$ORIGIN'' [''lib''] ''/b/q''"
    by code_simp
  have m: "\<not> is_windows (machines linux_env (for_machine gnu_ld)) \<and>
      \<not> is_cygwin (machines linux_env (for_machine gnu_ld))"
    by (simp add: linux_env_def linux_machine_def)
  have h: "\<not> is_dragonflybsd linux_host \<and> \<not> is_openbsd linux_host \<and> \<not> is_sunos linux_host"
    by (simp add: linux_host_def)
  have g: "apply_prefix gnu_ld (''-rpath,'' @ rpath_padded [''$ORIGIN/lib'', ''/b/q''] '''') =
      [''-Wl,-rpath,$ORIGIN/lib:/b/q'']"
    by code_simp
  have k: "concat (map (\<lambda>p. apply_prefix gnu_ld (''-rpath-link,'' @ posix_join ''/b'' [p]))
      [''lib'']) = [''-Wl,-rpath-link,/b/lib'']"
    by code_simp
  show ?thesis
    using prep nonempty ap [symmetric] m h g k
      build_rpath_args_build_rpath [OF prep nonempty pf ap, where l = gnu_ld
        and env = linux_env and host = linux_host and install_rpath = "[]"]
    by simp
qed

theorem build_rpath_args_build_rpath_counterexample:
  "''$ORIGIN/lib'' \<noteq> '''' \<and>
   GnuLike_build_rpath_args linux_host ''/'' gnu_ld linux_env ''/b'' '''' [''lib'']
     ''$ORIGIN/lib'' '''' =
     Inr [''-Wl,-rpath,$ORIGIN/lib'', ''-Wl,-rpath-link,/b/lib''] \<and>
   GnuLike_build_rpath_args linux_host ''/'' gnu_ld linux_env ''/b'' '''' [''lib'']
     ''$ORIGIN/lib'' '''' \<noteq>
     Inr [''-Wl,-rpath,$ORIGIN/lib:$ORIGIN/lib'', ''-Wl,-rpath-link,/b/lib''] \<and>
   Apple_build_rpath_args ''/'' apple_ld linux_env ''/b'' '''' [''lib''] ''@loader_path/lib'' '''' =
     Inr [''-Xlinker'', ''-headerpad_max_install_names'',
          ''-Xlinker'', ''-rpath,@loader_path/lib'']"
proof -
  have g: "GnuLike_build_rpath_args linux_host ''/'' gnu_ld linux_env ''/b'' '''' [''lib'']
     ''$ORIGIN/lib'' '''' = Inr [''-Wl,-rpath,$ORIGIN/lib'', ''-Wl,-rpath-link,/b/lib'']"
    by code_simp
  have a: "Apple_build_rpath_args ''/'' apple_ld linux_env ''/b'' '''' [''lib'']
     ''@loader_path/lib'' '''' =
     Inr [''-Xlinker'', ''-headerpad_max_install_names'',
          ''-Xlinker'', ''-rpath,@loader_path/lib'']"
    by code_simp
  show ?thesis using g a by simp
qed

text \<open>
  C9 (as amended). \<^verbatim>\<open>parse_version\<close> returns \<^verbatim>\<open>'unknown version'\<close> when running the
  probe raises \<^verbatim>\<open>OSError\<close>. Otherwise it returns what follows the last \<^verbatim>\<open>'V'\<close> of the
  stripped output, and the whole stripped output when that has no \<^verbatim>\<open>'V'\<close>.
\<close>

theorem parse_version_after_last_V:
  "parse_version Popen_OSError = ''unknown version'' \<and>
   CHR ''V'' \<notin> set (parse_version (Popen_output out)) \<and>
   (CHR ''V'' \<in> set (str_strip out) \<longrightarrow>
      (\<exists>pre. str_strip out = pre @ CHR ''V'' # parse_version (Popen_output out))) \<and>
   (CHR ''V'' \<notin> set (str_strip out) \<longrightarrow> parse_version (Popen_output out) = str_strip out)"
proof -
  have "last (str_split CHR ''V'' (str_strip out)) \<in> set (str_split CHR ''V'' (str_strip out))"
    using str_split_not_Nil by (rule last_in_set)
  then have "CHR ''V'' \<notin> set (last (str_split CHR ''V'' (str_strip out)))"
    by (rule str_split_pieces)
  then show ?thesis
    using last_str_split_suffix [of "CHR ''V''" "str_strip out"]
      str_split_no_sep [of "CHR ''V''" "str_strip out"]
    by (simp add: parse_version_def)
qed

theorem parse_version_after_last_V_witness:
  "CHR ''V'' \<in> set (str_strip ''Cuda compilation tools, release 10.0, V10.0.166\<newline>'') \<and>
   parse_version (Popen_output ''Cuda compilation tools, release 10.0, V10.0.166\<newline>'') =
     ''10.0.166'' \<and>
   str_strip ''Cuda compilation tools, release 10.0, V10.0.166\<newline>'' =
     ''Cuda compilation tools, release 10.0, '' @ CHR ''V'' # ''10.0.166'' \<and>
   CHR ''V'' \<notin> set (str_strip '' nvlink: not found '') \<and>
   parse_version (Popen_output '' nvlink: not found '') = str_strip '' nvlink: not found ''"
proof -
  have a: "CHR ''V'' \<in> set (str_strip ''Cuda compilation tools, release 10.0, V10.0.166\<newline>'')"
    by code_simp
  have b: "parse_version (Popen_output ''Cuda compilation tools, release 10.0, V10.0.166\<newline>'') =
      ''10.0.166''"
    by code_simp
  have c: "str_strip ''Cuda compilation tools, release 10.0, V10.0.166\<newline>'' =
      ''Cuda compilation tools, release 10.0, '' @ CHR ''V'' # ''10.0.166''"
    by code_simp
  have d: "CHR ''V'' \<notin> set (str_strip '' nvlink: not found '')"
    by code_simp
  show ?thesis
    using a b c d parse_version_after_last_V [of "'' nvlink: not found ''"]
      parse_version_after_last_V [of "''Cuda compilation tools, release 10.0, V10.0.166\<newline>''"]
    by blast
qed

theorem parse_version_after_last_V_counterexample:
  "CHR ''V'' \<notin> set ''nvlink: not found'' \<and>
   parse_version (Popen_output ''nvlink: not found'') = ''nvlink: not found'' \<and>
   parse_version (Popen_output ''nvlink: not found'') \<noteq> ''unknown version''"
proof -
  have p: "parse_version (Popen_output ''nvlink: not found'') = ''nvlink: not found''"
    by code_simp
  show ?thesis using p by simp
qed

end
